theory Spec2Isabelle
  imports Main
begin

section \<open>Data model of main.py\<close>

text \<open>
  A Python \<open>str\<close> is a sequence of Unicode code points, so a text is modelled as a list
  of code points (natural numbers); \<open>str_of\<close> turns an ASCII literal into such a text.
  Python integers are unbounded: \<open>int\<close>.
\<close>

type_synonym pychar = nat
type_synonym pystr = "pychar list"

definition str_of :: "string \<Rightarrow> pystr" where
  "str_of s = map of_char s"

text \<open>
  The exceptions the program can raise. \<open>SystemExit\<close> carries the line that
  \<open>Maze._validate\<close> prints before calling \<open>sys.exit(1)\<close>, and the exit status.
\<close>

datatype error = ValueError pystr | IndexError | SystemExit pystr int

datatype EFloor = Normal | Wall | Start | Goal

text \<open>\<open>Vector2D\<close> and \<open>Point2D\<close> are named tuples with fields \<open>x\<close> and \<open>y\<close>.\<close>

datatype Vector2D = Vector2D (vx: int) (vy: int)

datatype Point2D = Point2D (px: int) (py: int)

text \<open>\<open>Point2D.__add__\<close>; the type test of the source is the type of the argument here.\<close>

definition add :: "Point2D \<Rightarrow> Vector2D \<Rightarrow> Point2D" where
  "add p v = Point2D (px p + vx v) (py p + vy v)"

datatype EOrientation = North | West | South | East

text \<open>The enumeration's \<open>value\<close> attribute.\<close>

fun orientation_value :: "EOrientation \<Rightarrow> Vector2D" where
  "orientation_value North = Vector2D (-1) 0"
| "orientation_value West = Vector2D 0 (-1)"
| "orientation_value South = Vector2D 1 0"
| "orientation_value East = Vector2D 0 1"

fun turn_to_the_right :: "EOrientation \<Rightarrow> EOrientation" where
  "turn_to_the_right North = East"
| "turn_to_the_right West = North"
| "turn_to_the_right South = West"
| "turn_to_the_right East = South"

fun turn_to_the_left :: "EOrientation \<Rightarrow> EOrientation" where
  "turn_to_the_left North = West"
| "turn_to_the_left West = South"
| "turn_to_the_left South = East"
| "turn_to_the_left East = North"

fun turn_around :: "EOrientation \<Rightarrow> EOrientation" where
  "turn_around North = South"
| "turn_around West = East"
| "turn_around South = North"
| "turn_around East = West"

text \<open>\<open>Pose\<close> is a named tuple: equality and hashing are those of the pair of fields.\<close>

datatype Pose = Pose (pose_position: Point2D) (pose_orientation: EOrientation)

record Player =
  position :: Point2D
  orientation :: EOrientation

definition is_located_at :: "Player \<Rightarrow> Point2D \<Rightarrow> bool" where
  "is_located_at self pos = (position self = pos)"

definition Player_turn_to_the_right :: "Player \<Rightarrow> Player" where
  "Player_turn_to_the_right self = self\<lparr>orientation := turn_to_the_right (orientation self)\<rparr>"

definition keep_orientation :: "Player \<Rightarrow> Player" where
  "keep_orientation self = self"

definition Player_turn_to_the_left :: "Player \<Rightarrow> Player" where
  "Player_turn_to_the_left self = self\<lparr>orientation := turn_to_the_left (orientation self)\<rparr>"

definition Player_turn_around :: "Player \<Rightarrow> Player" where
  "Player_turn_around self = self\<lparr>orientation := turn_around (orientation self)\<rparr>"

definition step_forward :: "Player \<Rightarrow> Player" where
  "step_forward self =
     self\<lparr>position := add (position self) (orientation_value (orientation self))\<rparr>"

definition to_Pose :: "Player \<Rightarrow> Pose" where
  "to_Pose self = Pose (position self) (orientation self)"

section \<open>The maze and its text format\<close>

fun to_char :: "EFloor \<Rightarrow> pychar" where
  "to_char Normal = of_char CHR '' ''"
| "to_char Wall = of_char CHR ''*''"
| "to_char Start = of_char CHR ''o''"
| "to_char Goal = of_char CHR ''x''"

text \<open>\<open>EFloor.of\<close> (\<open>of\<close> is reserved in Isabelle); the message is the formatted one.\<close>

definition EFloor_of :: "pychar \<Rightarrow> error + EFloor" where
  "EFloor_of c =
     (if c = of_char CHR '' '' then Inr Normal
      else if c = of_char CHR ''*'' then Inr Wall
      else if c = of_char CHR ''o'' then Inr Start
      else if c = of_char CHR ''x'' then Inr Goal
      else Inl (ValueError (str_of ''Invalid character: '' @ [of_char (CHR 0x27), c, of_char (CHR 0x27)])))"

record Maze =
  floor :: "EFloor list list"
  start :: Point2D
  goal :: Point2D

text \<open>
  \<open>str.splitlines\<close> of the Python library: a line ends at \<open>\n\<close>, \<open>\r\<close>, \<open>\r\n\<close> (one
  boundary), \<open>\v\<close>, \<open>\f\<close>, \<open>\x1c\<close>, \<open>\x1d\<close>, \<open>\x1e\<close>, \<open>\x85\<close>, U+2028 or U+2029;
  the boundaries are dropped, and no empty line is produced after the last boundary.
  The first argument of \<open>splitlines_from\<close> is the line read so far.
\<close>

definition is_linebreak :: "pychar \<Rightarrow> bool" where
  "is_linebreak c = (c = 10 \<or> c = 11 \<or> c = 12 \<or> c = 13 \<or> c = 28 \<or> c = 29 \<or> c = 30
                     \<or> c = 133 \<or> c = 8232 \<or> c = 8233)"

fun splitlines_from :: "pystr \<Rightarrow> pystr \<Rightarrow> pystr list" where
  "splitlines_from line [] = (if line = [] then [] else [line])"
| "splitlines_from line [c] = (if is_linebreak c then [line] else [line @ [c]])"
| "splitlines_from line (c # d # cs) =
     (if c = 13 \<and> d = 10 then line # splitlines_from [] cs
      else if is_linebreak c then line # splitlines_from [] (d # cs)
      else splitlines_from (line @ [c]) (d # cs))"

definition splitlines :: "pystr \<Rightarrow> pystr list" where
  "splitlines s = splitlines_from [] s"

text \<open>\<open>sep.join(lines)\<close> of the Python library.\<close>

fun join :: "pystr \<Rightarrow> pystr list \<Rightarrow> pystr" where
  "join sep [] = []"
| "join sep [l] = l"
| "join sep (l # l' # ls) = l @ sep @ join sep (l' # ls)"

text \<open>
  \<open>Maze.to_string\<close>. \<open>os.linesep\<close> is a constant of the platform (\<open>\n\<close> on POSIX,
  \<open>\r\n\<close> on Windows) and is taken as a parameter.
\<close>

definition to_string :: "pystr \<Rightarrow> Maze \<Rightarrow> pystr" where
  "to_string linesep self = join linesep (map (map to_char) (floor self))"

text \<open>
  \<open>Maze._validate\<close>: the membership tests on the whole text, the start first. Each failure
  prints its line and leaves the process with status 1.
\<close>

definition validate :: "pystr \<Rightarrow> error + unit" where
  "validate s =
     (if to_char Start \<notin> set s
      then Inl (SystemExit (str_of ''Error: Cannot find the beginning position. Abort program.'') 1)
      else if to_char Goal \<notin> set s
      then Inl (SystemExit (str_of ''Error: Cannot find the exit position. Abort program.'') 1)
      else Inr ())"

text \<open>
  The nested list comprehension of \<open>Maze.parse\<close>: the characters are converted in
  row-major order, and the first \<open>ValueError\<close> ends the comprehension.
\<close>

fun floors_of_line :: "pystr \<Rightarrow> error + EFloor list" where
  "floors_of_line [] = Inr []"
| "floors_of_line (aChar # line) =
     (case EFloor_of aChar of
        Inl e \<Rightarrow> Inl e
      | Inr f \<Rightarrow> (case floors_of_line line of Inl e \<Rightarrow> Inl e | Inr fs \<Rightarrow> Inr (f # fs)))"

fun floors_of_lines :: "pystr list \<Rightarrow> error + EFloor list list" where
  "floors_of_lines [] = Inr []"
| "floors_of_lines (line # lines) =
     (case floors_of_line line of
        Inl e \<Rightarrow> Inl e
      | Inr row \<Rightarrow> (case floors_of_lines lines of Inl e \<Rightarrow> Inl e | Inr rows \<Rightarrow> Inr (row # rows)))"

text \<open>
  \<open>list.index\<close>: the first index of the element, \<open>None\<close> standing for the \<open>ValueError\<close>
  of an absent element.
\<close>

fun list_index :: "'a list \<Rightarrow> 'a \<Rightarrow> nat option" where
  "list_index [] a = None"
| "list_index (b # bs) a = (if b = a then Some 0 else map_option Suc (list_index bs a))"

text \<open>
  \<open>Maze._find_xy\<close>: element \<open>[0]\<close> of the list of the indices of the rows that hold the
  kind (an \<open>IndexError\<close> when the list is empty), then the index of the kind in that row.
\<close>

definition find_xy :: "EFloor \<Rightarrow> EFloor list list \<Rightarrow> error + Point2D" where
  "find_xy kind floor_map_2d =
     (case filter (\<lambda>i. kind \<in> set (floor_map_2d ! i)) [0..<length floor_map_2d] of
        [] \<Rightarrow> Inl IndexError
      | x # _ \<Rightarrow>
          (case list_index (floor_map_2d ! x) kind of
             None \<Rightarrow> Inl (ValueError (str_of ''not in list''))
           | Some y \<Rightarrow> Inr (Point2D (int x) (int y))))"

definition parse :: "pystr \<Rightarrow> error + Maze" where
  "parse s =
     (case validate s of
        Inl e \<Rightarrow> Inl e
      | Inr _ \<Rightarrow>
          (case floors_of_lines (splitlines s) of
             Inl e \<Rightarrow> Inl e
           | Inr floors \<Rightarrow>
               (case find_xy Start floors of
                  Inl e \<Rightarrow> Inl e
                | Inr start_at \<Rightarrow>
                    (case find_xy Goal floors of
                       Inl e \<Rightarrow> Inl e
                     | Inr goal_at \<Rightarrow>
                         Inr \<lparr>floor = floors, start = start_at, goal = goal_at\<rparr>))))"

section \<open>The navigation engine\<close>

record MazeManager =
  maze :: Maze
  player :: Player

text \<open>
  Reading a Python list at an integer: a negative index counts from the end, and an index
  outside \<open>[-n, n)\<close> raises \<open>IndexError\<close>.
\<close>

definition getitem :: "'a list \<Rightarrow> int \<Rightarrow> error + 'a" where
  "getitem xs i =
     (if 0 \<le> i \<and> i < int (length xs) then Inr (xs ! nat i)
      else if - int (length xs) \<le> i \<and> i < 0 then Inr (xs ! nat (i + int (length xs)))
      else Inl IndexError)"

text \<open>\<open>MazeManager._player_can_go\<close>: \<open>self.maze.floor[pos.x][pos.y] != EFloor.Wall\<close>.\<close>

definition player_can_go :: "MazeManager \<Rightarrow> Point2D \<Rightarrow> error + bool" where
  "player_can_go self pos =
     (case getitem (floor (maze self)) (px pos) of
        Inl e \<Rightarrow> Inl e
      | Inr row \<Rightarrow> (case getitem row (py pos) of Inl e \<Rightarrow> Inl e | Inr f \<Rightarrow> Inr (f \<noteq> Wall)))"

definition is_player_located_at_goal :: "MazeManager \<Rightarrow> bool" where
  "is_player_located_at_goal self = is_located_at (player self) (goal (maze self))"

definition player_can_go_right :: "MazeManager \<Rightarrow> error + bool" where
  "player_can_go_right self =
     (let new_orientation = turn_to_the_right (orientation (player self));
          next_pos = add (position (player self)) (orientation_value new_orientation)
      in player_can_go self next_pos)"

definition player_can_go_forward :: "MazeManager \<Rightarrow> error + bool" where
  "player_can_go_forward self =
     (let next_pos = add (position (player self)) (orientation_value (orientation (player self)))
      in player_can_go self next_pos)"

definition player_can_go_left :: "MazeManager \<Rightarrow> error + bool" where
  "player_can_go_left self =
     (let new_orientation = turn_to_the_left (orientation (player self));
          next_pos = add (position (player self)) (orientation_value new_orientation)
      in player_can_go self next_pos)"

definition player_can_go_backward :: "MazeManager \<Rightarrow> error + bool" where
  "player_can_go_backward self =
     (let new_orientation = turn_around (orientation (player self));
          next_pos = add (position (player self)) (orientation_value new_orientation)
      in player_can_go self next_pos)"

definition player_turn_to_the_right :: "MazeManager \<Rightarrow> MazeManager" where
  "player_turn_to_the_right self = self\<lparr>player := Player_turn_to_the_right (player self)\<rparr>"

definition player_keep_orientation :: "MazeManager \<Rightarrow> MazeManager" where
  "player_keep_orientation self = self\<lparr>player := keep_orientation (player self)\<rparr>"

definition player_turn_to_the_left :: "MazeManager \<Rightarrow> MazeManager" where
  "player_turn_to_the_left self = self\<lparr>player := Player_turn_to_the_left (player self)\<rparr>"

definition player_turn_around :: "MazeManager \<Rightarrow> MazeManager" where
  "player_turn_around self = self\<lparr>player := Player_turn_around (player self)\<rparr>"

text \<open>
  The lines the engine prints, by their format and the values formatted into them:
  \<open>Current position: p\<close>, \<open>At p facing d\<close>, \<open>Exit at p\<close> and
  \<open>There is no solution for this maze.\<close>
\<close>

datatype printed = CurrentPosition Point2D | AtFacing Point2D EOrientation
  | ExitAt Point2D | NoSolution

text \<open>
  \<open>MazeManager.player_step_forward\<close> prints the position and the orientation it has when
  called, then advances the player. The printed lines are threaded as a list.
\<close>

definition player_step_forward :: "MazeManager \<Rightarrow> printed list \<Rightarrow> MazeManager \<times> printed list" where
  "player_step_forward self out =
     (self\<lparr>player := step_forward (player self)\<rparr>,
      out @ [AtFacing (position (player self)) (orientation (player self))])"

text \<open>
  The body of the \<open>while\<close> loop of \<open>process_players_trial\<close> after \<open>history.add\<close>: the
  \<open>if\<close>/\<open>elif\<close> chain. A lookup that raises ends the body with the exception.
\<close>

definition loop_body :: "MazeManager \<Rightarrow> printed list \<Rightarrow> error + MazeManager \<times> printed list" where
  "loop_body self out =
     (case player_can_go_right self of
        Inl e \<Rightarrow> Inl e
      | Inr True \<Rightarrow> Inr (player_step_forward (player_turn_to_the_right self) out)
      | Inr False \<Rightarrow>
          (case player_can_go_forward self of
             Inl e \<Rightarrow> Inl e
           | Inr True \<Rightarrow> Inr (player_step_forward (player_keep_orientation self) out)
           | Inr False \<Rightarrow>
               (case player_can_go_left self of
                  Inl e \<Rightarrow> Inl e
                | Inr True \<Rightarrow> Inr (player_step_forward (player_turn_to_the_left self) out)
                | Inr False \<Rightarrow> Inr (player_step_forward (player_turn_around self) out))))"

subsection \<open>The positions a lookup accepts\<close>

text \<open>
  \<open>cell_at\<close> is the double subscript \<open>floor[pos.x][pos.y]\<close> on its own; \<open>indexable\<close> is
  the set of positions at which it raises nothing, and \<open>probe_ok\<close> the set of poses whose
  right-hand neighbour is such a position.
\<close>

definition cell_at :: "EFloor list list \<Rightarrow> Point2D \<Rightarrow> error + EFloor" where
  "cell_at fm pos =
     (case getitem fm (px pos) of Inl e \<Rightarrow> Inl e | Inr row \<Rightarrow> getitem row (py pos))"

definition indexable :: "EFloor list list \<Rightarrow> Point2D set" where
  "indexable fm = {pos. \<exists>f. cell_at fm pos = Inr f}"

definition right_of :: "Pose \<Rightarrow> Point2D" where
  "right_of ps = add (pose_position ps) (orientation_value (turn_to_the_right (pose_orientation ps)))"

definition probe_ok :: "Maze \<Rightarrow> Pose set" where
  "probe_ok m = {ps. right_of ps \<in> indexable (floor m)}"

lemma player_can_go_cell_at:
  "player_can_go self pos =
     (case cell_at (floor (maze self)) pos of Inl e \<Rightarrow> Inl e | Inr f \<Rightarrow> Inr (f \<noteq> Wall))"
  by (simp add: player_can_go_def cell_at_def split: sum.splits)

lemma getitem_Inr_range:
  "getitem xs i = Inr a \<Longrightarrow> - int (length xs) \<le> i \<and> i < int (length xs)"
  by (auto simp: getitem_def split: if_splits)

lemma getitem_Inr_mem: "getitem xs i = Inr a \<Longrightarrow> a \<in> set xs"
  by (auto simp: getitem_def split: if_splits)

lemma getitem_Inl: "getitem xs i = Inl e \<Longrightarrow> e = IndexError"
  by (auto simp: getitem_def split: if_splits)

lemma indexable_box:
  assumes "\<And>row. row \<in> set fm \<Longrightarrow> length row \<le> C"
  shows "indexable fm \<subseteq>
           (\<lambda>(a, b). Point2D a b) ` ({- int (length fm) ..< int (length fm)} \<times> {- int C ..< int C})"
proof
  fix pos assume "pos \<in> indexable fm"
  then obtain f where f: "cell_at fm pos = Inr f"
    by (auto simp: indexable_def)
  then obtain row where row: "getitem fm (px pos) = Inr row" and c: "getitem row (py pos) = Inr f"
    by (auto simp: cell_at_def split: sum.splits)
  from row have r1: "- int (length fm) \<le> px pos \<and> px pos < int (length fm)"
    by (rule getitem_Inr_range)
  from row have "row \<in> set fm" by (rule getitem_Inr_mem)
  then have "length row \<le> C" by (rule assms)
  with getitem_Inr_range[OF c] have r2: "- int C \<le> py pos \<and> py pos < int C"
    by linarith
  have "pos = (\<lambda>(a, b). Point2D a b) (px pos, py pos)" by simp
  moreover have "(px pos, py pos) \<in> {- int (length fm) ..< int (length fm)} \<times> {- int C ..< int C}"
    using r1 r2 by simp
  ultimately show "pos \<in> (\<lambda>(a, b). Point2D a b) ` ({- int (length fm) ..< int (length fm)} \<times> {- int C ..< int C})"
    by (rule image_eqI)
qed

lemma length_le_sum_list: "row \<in> set fm \<Longrightarrow> length row \<le> sum_list (map length fm)"
  by (induction fm) auto

lemma finite_indexable: "finite (indexable fm)"
  by (rule finite_subset[OF indexable_box[where C = "sum_list (map length fm)"]])
     (auto simp: length_le_sum_list)

lemma card_indexable:
  assumes "\<And>row. row \<in> set fm \<Longrightarrow> length row \<le> C"
  shows "card (indexable fm) \<le> 4 * length fm * C"
proof -
  let ?B = "{- int (length fm) ..< int (length fm)} \<times> {- int C ..< int C}"
  have "card (indexable fm) \<le> card ((\<lambda>(a, b). Point2D a b) ` ?B)"
    by (rule card_mono[OF _ indexable_box[OF assms]]) simp_all
  also have "\<dots> \<le> card ?B" by (rule card_image_le) simp
  also have "\<dots> = 4 * length fm * C"
    by (simp add: card_cartesian_product nat_mult_distrib)
  finally show ?thesis .
qed

lemma UNIV_EOrientation: "(UNIV :: EOrientation set) = {North, West, South, East}"
proof -
  have "d \<in> {North, West, South, East}" for d by (cases d) simp_all
  then show ?thesis by blast
qed

definition left_of_probe :: "Point2D \<times> EOrientation \<Rightarrow> Pose" where
  "left_of_probe qd =
     Pose (Point2D (px (fst qd) - vx (orientation_value (turn_to_the_right (snd qd))))
                   (py (fst qd) - vy (orientation_value (turn_to_the_right (snd qd)))))
          (snd qd)"

lemma probe_ok_image: "probe_ok m \<subseteq> left_of_probe ` (indexable (floor m) \<times> UNIV)"
proof
  fix ps assume "ps \<in> probe_ok m"
  then have "right_of ps \<in> indexable (floor m)" by (simp add: probe_ok_def)
  then have "(right_of ps, pose_orientation ps) \<in> indexable (floor m) \<times> UNIV" by simp
  moreover have "ps = left_of_probe (right_of ps, pose_orientation ps)"
    by (cases ps) (simp add: left_of_probe_def right_of_def add_def)
  ultimately show "ps \<in> left_of_probe ` (indexable (floor m) \<times> UNIV)" by (rule rev_image_eqI)
qed

lemma finite_probe_ok: "finite (probe_ok m)"
  by (rule finite_subset[OF probe_ok_image]) (simp add: finite_indexable UNIV_EOrientation)

lemma card_probe_ok:
  assumes "\<And>row. row \<in> set (floor m) \<Longrightarrow> length row \<le> C"
  shows "card (probe_ok m) \<le> 16 * length (floor m) * C"
proof -
  have fin: "finite (indexable (floor m) \<times> (UNIV :: EOrientation set))"
    by (simp add: finite_indexable UNIV_EOrientation)
  have "card (probe_ok m) \<le> card (left_of_probe ` (indexable (floor m) \<times> (UNIV :: EOrientation set)))"
    by (rule card_mono[OF _ probe_ok_image]) (simp add: fin)
  also have "\<dots> \<le> card (indexable (floor m) \<times> (UNIV :: EOrientation set))"
    by (rule card_image_le[OF fin])
  also have "\<dots> = card (indexable (floor m)) * 4"
    by (simp add: card_cartesian_product UNIV_EOrientation)
  also have "\<dots> \<le> (4 * length (floor m) * C) * 4"
    using card_indexable[of "floor m" C] assms by (simp add: mult.commute)
  finally show ?thesis by simp
qed

lemma player_step_forward_maze: "maze (fst (player_step_forward self out)) = maze self"
  by (simp add: player_step_forward_def)

lemma loop_body_maze:
  assumes "loop_body self out = Inr (self', out')"
  shows "maze self' = maze self"
proof -
  have "maze (fst r) = maze self" if "loop_body self out = Inr r" for r
    using that
    by (auto simp: loop_body_def player_step_forward_def player_turn_to_the_right_def
        player_keep_orientation_def player_turn_to_the_left_def player_turn_around_def
        split: sum.splits bool.splits)
  from this[OF assms] show ?thesis by simp
qed

lemma loop_body_probe_ok:
  assumes "loop_body self out = Inr r"
  shows "to_Pose (player self) \<in> probe_ok (maze self)"
proof -
  from assms obtain b where "player_can_go_right self = Inr b"
    by (auto simp: loop_body_def split: sum.splits)
  then obtain f where "cell_at (floor (maze self)) (right_of (to_Pose (player self))) = Inr f"
    by (auto simp: player_can_go_right_def player_can_go_cell_at right_of_def to_Pose_def
        split: sum.splits)
  then show ?thesis by (auto simp: probe_ok_def indexable_def)
qed

subsection \<open>The loop\<close>

text \<open>
  The \<open>while\<close> loop of \<open>process_players_trial\<close>, with the \<open>history\<close> set and the printed
  lines as arguments. It returns the printed lines and either the exception that ended
  the loop or the manager the loop leaves.
\<close>

function trial_loop ::
  "MazeManager \<Rightarrow> Pose set \<Rightarrow> printed list \<Rightarrow> printed list \<times> (error + MazeManager)" where
  "trial_loop self history out =
     (if \<not> is_player_located_at_goal self \<and> to_Pose (player self) \<notin> history then
        (case loop_body self out of
           Inl e \<Rightarrow> (out, Inl e)
         | Inr (self', out') \<Rightarrow>
             trial_loop self' (insert (to_Pose (player self)) history) out')
      else (out, Inr self))"
  by pat_completeness auto
termination
proof (relation "measure (\<lambda>(self, history, out). card (probe_ok (maze self) - history))")
  show "wf (measure (\<lambda>(self, history, out). card (probe_ok (maze self) - history)))"
    by simp
next
  fix self :: MazeManager and history :: "Pose set" and out :: "printed list"
    and x2 :: "MazeManager \<times> printed list" and x y
  assume guard: "\<not> is_player_located_at_goal self \<and> to_Pose (player self) \<notin> history"
    and body: "loop_body self out = Inr x2" and x2: "(x, y) = x2"
  from body x2 have m: "maze x = maze self"
    by (auto dest: loop_body_maze)
  from body have "to_Pose (player self) \<in> probe_ok (maze self)"
    by (rule loop_body_probe_ok)
  with guard have "to_Pose (player self) \<in> probe_ok (maze self) - history"
    by simp
  then have "card (probe_ok (maze self) - insert (to_Pose (player self)) history)
             < card (probe_ok (maze self) - history)"
    by (metis Diff_insert card_Diff1_less finite_Diff finite_probe_ok)
  with m show "((x, insert (to_Pose (player self)) history, y), (self, history, out))
        \<in> measure (\<lambda>(self, history, out). card (probe_ok (maze self) - history))"
    by simp
qed

text \<open>
  \<open>MazeManager.process_players_trial\<close>: the first line, the loop on an empty history, and
  the verdict. The result is the printed lines and the manager as the method leaves it,
  or the exception raised.
\<close>

definition process_players_trial :: "MazeManager \<Rightarrow> printed list \<times> (error + MazeManager)" where
  "process_players_trial self =
     (case trial_loop self {} [CurrentPosition (position (player self))] of
        (out, Inl e) \<Rightarrow> (out, Inl e)
      | (out, Inr self') \<Rightarrow>
          if is_player_located_at_goal self'
          then (out @ [ExitAt (position (player self'))], Inr self')
          else (out @ [NoSolution], Inr self'))"

declare trial_loop.simps [simp del]

subsection \<open>The transition in the words of the specification\<close>

text \<open>
  The prospective position of a candidate orientation is the current position plus the
  unit vector of the candidate. A candidate is applied by setting the orientation to it
  and advancing the position one step along it.
\<close>

definition prospective :: "MazeManager \<Rightarrow> EOrientation \<Rightarrow> Point2D" where
  "prospective self d = add (position (player self)) (orientation_value d)"

definition applied :: "MazeManager \<Rightarrow> EOrientation \<Rightarrow> MazeManager" where
  "applied self d = self\<lparr>player := \<lparr>position = prospective self d, orientation = d\<rparr>\<rparr>"

section \<open>Example mazes\<close>

text \<open>The first maze of the demonstration in \<open>main.py\<close>, as parsed.\<close>

definition maze1 :: Maze where
  "maze1 =
     \<lparr>floor = [[Wall, Wall, Wall, Wall, Wall, Wall, Wall],
               [Wall, Start, Normal, Normal, Normal, Normal, Wall],
               [Wall, Normal, Goal, Wall, Wall, Wall, Wall],
               [Wall, Normal, Normal, Normal, Normal, Normal, Wall],
               [Wall, Wall, Wall, Wall, Wall, Wall, Wall]],
      start = Point2D 1 1, goal = Point2D 2 2\<rparr>"

definition on_maze1 :: "Point2D \<Rightarrow> EOrientation \<Rightarrow> MazeManager" where
  "on_maze1 pos d = \<lparr>maze = maze1, player = \<lparr>position = pos, orientation = d\<rparr>\<rparr>"


definition walled_in_maze :: Maze where
  "walled_in_maze =
     \<lparr>floor = [[Wall, Wall, Wall, Wall, Wall],
               [Wall, Start, Wall, Goal, Wall],
               [Wall, Wall, Wall, Wall, Wall],
               [Wall, Wall, Wall, Wall, Wall]],
      start = Point2D 1 1, goal = Point2D 1 3\<rparr>"

definition on_walled_in :: "Point2D \<Rightarrow> EOrientation \<Rightarrow> MazeManager" where
  "on_walled_in pos d = \<lparr>maze = walled_in_maze, player = \<lparr>position = pos, orientation = d\<rparr>\<rparr>"

text \<open>A maze of two rows of two cells, with one wall in the last row.\<close>

definition small_maze :: Maze where
  "small_maze = \<lparr>floor = [[Start, Goal], [Normal, Wall]], start = Point2D 0 0, goal = Point2D 0 1\<rparr>"

definition on_small_maze :: "Point2D \<Rightarrow> EOrientation \<Rightarrow> MazeManager" where
  "on_small_maze pos d = \<lparr>maze = small_maze, player = \<lparr>position = pos, orientation = d\<rparr>\<rparr>"

text \<open>
  A parseable text whose lines have different lengths: \<open>parse\<close> does not ask for a
  rectangle. Its start is in a row of one cell.
\<close>

definition ragged_maze :: Maze where
  "ragged_maze = \<lparr>floor = [[Normal], [Start], [Wall, Goal]], start = Point2D 1 0, goal = Point2D 2 1\<rparr>"

definition on_ragged :: "Point2D \<Rightarrow> EOrientation \<Rightarrow> MazeManager" where
  "on_ragged pos d = \<lparr>maze = ragged_maze, player = \<lparr>position = pos, orientation = d\<rparr>\<rparr>"

text \<open>The definitions that evaluate a run on a concrete maze.\<close>

lemmas run_defs = is_player_located_at_goal_def is_located_at_def to_Pose_def loop_body_def
  player_can_go_right_def player_can_go_forward_def player_can_go_left_def player_can_go_def
  getitem_def add_def player_step_forward_def player_turn_to_the_right_def
  player_keep_orientation_def player_turn_to_the_left_def player_turn_around_def
  Player_turn_to_the_right_def keep_orientation_def Player_turn_to_the_left_def
  Player_turn_around_def step_forward_def

text \<open>
  The glyph table of the specification, and the \<open>ValueError\<close> that \<open>EFloor.of\<close> raises
  for a character outside it.
\<close>

definition glyph :: "pychar \<Rightarrow> bool" where
  "glyph c = (c = of_char CHR '' '' \<or> c = of_char CHR ''*'' \<or> c = of_char CHR ''o'' \<or> c = of_char CHR ''x'')"

definition invalid_character :: "pychar \<Rightarrow> error" where
  "invalid_character c = ValueError (str_of ''Invalid character: '' @ str_of [CHR 0x27] @ [c] @ str_of [CHR 0x27])"

text \<open>The text of the first maze of the demonstration.\<close>

definition maze1_text :: pystr where
  "maze1_text = str_of ''*******'' @ [10] @ str_of ''*o    *'' @ [10] @ str_of ''* x****'' @ [10]
                @ str_of ''*     *'' @ [10] @ str_of ''*******''"

section \<open>The trajectory of the agent\<close>

text \<open>
  The manager after \<open>n\<close> transitions: the body of the loop applied \<open>n\<close> times, whatever
  the guard of the loop says, or the exception of the first lookup that raises. The
  trajectory of the agent is the sequence of the poses of these managers.
\<close>

fun after_transitions :: "nat \<Rightarrow> MazeManager \<Rightarrow> error + MazeManager" where
  "after_transitions 0 self = Inr self"
| "after_transitions (Suc n) self =
     (case loop_body self [] of Inl e \<Rightarrow> Inl e | Inr (self', out') \<Rightarrow> after_transitions n self')"

text \<open>
  \<open>stays_off_goal self j\<close>: the first \<open>j\<close> transitions raise nothing and the agent is not
  at the goal before or after any of them. \<open>recurs_at self h j\<close>: the pose after \<open>j\<close>
  transitions is in \<open>h\<close> or is the pose after fewer transitions. \<open>ends_unsolved\<close>: the
  loop is left, without an exception, by an agent that is not at the goal.
\<close>

definition stays_off_goal :: "MazeManager \<Rightarrow> nat \<Rightarrow> bool" where
  "stays_off_goal self j =
     (\<forall>k\<le>j. \<exists>s. after_transitions k self = Inr s \<and> \<not> is_player_located_at_goal s)"

definition recurs_at :: "MazeManager \<Rightarrow> Pose set \<Rightarrow> nat \<Rightarrow> bool" where
  "recurs_at self h j =
     (\<exists>s. after_transitions j self = Inr s
        \<and> (to_Pose (player s) \<in> h
           \<or> (\<exists>i<j. \<exists>s'. after_transitions i self = Inr s' \<and> to_Pose (player s') = to_Pose (player s))))"

definition ends_unsolved :: "printed list \<times> (error + MazeManager) \<Rightarrow> bool" where
  "ends_unsolved r = (case snd r of Inl e \<Rightarrow> False | Inr s \<Rightarrow> \<not> is_player_located_at_goal s)"

section \<open>Agent mutators\<close>

text \<open>
  C9: the four turning mutators (right, left, about-face, keep) leave the position of the
  agent as it is and change at most the orientation, by the orientation transform of the
  same name; \<open>step_forward\<close> leaves the orientation as it is and sets the position to the
  position plus the unit vector of the orientation.
\<close>

theorem player_mutators_frame:
  "position (Player_turn_to_the_right p) = position p
   \<and> orientation (Player_turn_to_the_right p) = turn_to_the_right (orientation p)
   \<and> position (Player_turn_to_the_left p) = position p
   \<and> orientation (Player_turn_to_the_left p) = turn_to_the_left (orientation p)
   \<and> position (Player_turn_around p) = position p
   \<and> orientation (Player_turn_around p) = turn_around (orientation p)
   \<and> keep_orientation p = p
   \<and> orientation (step_forward p) = orientation p
   \<and> position (step_forward p) = add (position p) (orientation_value (orientation p))
   \<and> px (position (step_forward p)) = px (position p) + vx (orientation_value (orientation p))
   \<and> py (position (step_forward p)) = py (position p) + vy (orientation_value (orientation p))"
  by (simp add: Player_turn_to_the_right_def Player_turn_to_the_left_def
      Player_turn_around_def keep_orientation_def step_forward_def add_def)


section \<open>Goal priority\<close>

text \<open>
  C5: when the position of the agent equals the goal of the maze, whatever its
  orientation, the loop is left at its entry, also when the pose is already in the
  history (the goal test comes first), and the run prints the first line and the exit
  line only: no transition is made and the manager is as it was.
\<close>

theorem goal_priority:
  assumes "position (player self) = goal (maze self)"
  shows "trial_loop self history out = (out, Inr self)
         \<and> process_players_trial self
             = ([CurrentPosition (position (player self)), ExitAt (position (player self))], Inr self)"
proof -
  from assms have g: "is_player_located_at_goal self"
    by (simp add: is_player_located_at_goal_def is_located_at_def)
  then have l: "trial_loop self h out' = (out', Inr self)" for h out'
    by (subst trial_loop.simps) simp
  show ?thesis using g by (simp add: l process_players_trial_def)
qed

theorem goal_priority_witness:
  "position (player (on_small_maze (Point2D 0 1) West)) = goal (maze (on_small_maze (Point2D 0 1) West))
   \<and> trial_loop (on_small_maze (Point2D 0 1) West) {Pose (Point2D 0 1) West} []
       = ([], Inr (on_small_maze (Point2D 0 1) West))
   \<and> process_players_trial (on_small_maze (Point2D 0 1) West)
       = ([CurrentPosition (Point2D 0 1), ExitAt (Point2D 0 1)], Inr (on_small_maze (Point2D 0 1) West))"
proof -
  have h: "position (player (on_small_maze (Point2D 0 1) West))
           = goal (maze (on_small_maze (Point2D 0 1) West))"
    by (simp add: small_maze_def on_small_maze_def)
  show ?thesis
    using h goal_priority[OF h, of "{Pose (Point2D 0 1) West}" "[]"]
    by (simp add: small_maze_def on_small_maze_def)
qed

section \<open>The priority order of the candidates\<close>

lemma step_after_turn:
  "player_step_forward (player_turn_to_the_right self) out
     = (applied self (turn_to_the_right (orientation (player self))),
        out @ [AtFacing (position (player self)) (turn_to_the_right (orientation (player self)))])"
  "player_step_forward (player_keep_orientation self) out
     = (applied self (orientation (player self)),
        out @ [AtFacing (position (player self)) (orientation (player self))])"
  "player_step_forward (player_turn_to_the_left self) out
     = (applied self (turn_to_the_left (orientation (player self))),
        out @ [AtFacing (position (player self)) (turn_to_the_left (orientation (player self)))])"
  "player_step_forward (player_turn_around self) out
     = (applied self (turn_around (orientation (player self))),
        out @ [AtFacing (position (player self)) (turn_around (orientation (player self)))])"
  by (simp_all add: player_step_forward_def player_turn_to_the_right_def
      player_keep_orientation_def player_turn_to_the_left_def player_turn_around_def
      Player_turn_to_the_right_def keep_orientation_def Player_turn_to_the_left_def
      Player_turn_around_def step_forward_def applied_def prospective_def)

lemma can_go_prospective:
  "player_can_go_right self = player_can_go self (prospective self (turn_to_the_right (orientation (player self))))"
  "player_can_go_forward self = player_can_go self (prospective self (orientation (player self)))"
  "player_can_go_left self = player_can_go self (prospective self (turn_to_the_left (orientation (player self))))"
  "player_can_go_backward self = player_can_go self (prospective self (turn_around (orientation (player self))))"
  by (simp_all add: player_can_go_right_def player_can_go_forward_def player_can_go_left_def
      player_can_go_backward_def prospective_def)

lemma loop_body_cases:
  "loop_body self out =
     (case player_can_go self (prospective self (turn_to_the_right (orientation (player self)))) of
        Inl e \<Rightarrow> Inl e
      | Inr True \<Rightarrow> Inr (applied self (turn_to_the_right (orientation (player self))),
                       out @ [AtFacing (position (player self)) (turn_to_the_right (orientation (player self)))])
      | Inr False \<Rightarrow>
          (case player_can_go self (prospective self (orientation (player self))) of
             Inl e \<Rightarrow> Inl e
           | Inr True \<Rightarrow> Inr (applied self (orientation (player self)),
                            out @ [AtFacing (position (player self)) (orientation (player self))])
           | Inr False \<Rightarrow>
               (case player_can_go self (prospective self (turn_to_the_left (orientation (player self)))) of
                  Inl e \<Rightarrow> Inl e
                | Inr True \<Rightarrow> Inr (applied self (turn_to_the_left (orientation (player self))),
                                 out @ [AtFacing (position (player self)) (turn_to_the_left (orientation (player self)))])
                | Inr False \<Rightarrow> Inr (applied self (turn_around (orientation (player self))),
                                  out @ [AtFacing (position (player self)) (turn_around (orientation (player self)))]))))"
  by (simp add: loop_body_def step_after_turn can_go_prospective split: sum.splits bool.splits)

lemma applied_explicit:
  "applied self c
     = \<lparr>maze = maze self,
        player = \<lparr>position = add (position (player self)) (orientation_value c), orientation = c\<rparr>\<rparr>"
  by (cases self) (simp add: applied_def prospective_def)

text \<open>
  C1, as the claim states it, fails: not at every decision point is a candidate applied.
  The text of three lines \<open>" "\<close>, \<open>"o"\<close>, \<open>"*x"\<close> parses; at its start, facing East, the
  agent is at a decision point, the lookup of the cell to its right gives a wall, and the
  lookup of the cell straight ahead raises \<open>IndexError\<close> (the row of the start has one
  cell). The cell to its left is not a wall, yet no candidate is applied: the run ends
  with the exception, after its first line.
\<close>

theorem priority_order_counterexample:
  "parse (str_of '' '' @ [10] @ str_of ''o'' @ [10] @ str_of ''*x'') = Inr ragged_maze
   \<and> on_ragged (start ragged_maze) East = on_ragged (Point2D 1 0) East
   \<and> \<not> is_player_located_at_goal (on_ragged (Point2D 1 0) East)
   \<and> to_Pose (player (on_ragged (Point2D 1 0) East)) \<notin> {}
   \<and> player_can_go (on_ragged (Point2D 1 0) East)
        (add (Point2D 1 0) (orientation_value (turn_to_the_right East))) = Inr False
   \<and> player_can_go (on_ragged (Point2D 1 0) East)
        (add (Point2D 1 0) (orientation_value East)) = Inl IndexError
   \<and> player_can_go (on_ragged (Point2D 1 0) East)
        (add (Point2D 1 0) (orientation_value (turn_to_the_left East))) = Inr True
   \<and> loop_body (on_ragged (Point2D 1 0) East) [CurrentPosition (Point2D 1 0)] = Inl IndexError
   \<and> process_players_trial (on_ragged (Point2D 1 0) East)
        = ([CurrentPosition (Point2D 1 0)], Inl IndexError)"
  by (simp add: ragged_maze_def on_ragged_def parse_def validate_def str_of_def splitlines_def
      is_linebreak_def EFloor_of_def find_xy_def process_players_trial_def trial_loop.simps
      run_defs)

text \<open>
  C1, amended: at a decision point (the agent is not at the goal and its pose is not in
  the history) the candidates are looked up in the order right turn, straight ahead, left
  turn, each only when the lookups before it gave a wall. The first candidate whose
  prospective cell (the position plus the unit vector of the candidate) is looked up as
  not a wall is applied: the orientation becomes the candidate, the position becomes the
  prospective cell, the line of the step (the position before the step, the orientation
  after the turn) is printed, and the loop goes on with the pose added to the history.
  When the three lookups give a wall the about-face is applied in the same way, and the
  cell behind the agent is not looked up. When a lookup that is reached raises, no
  candidate is applied and the run ends with that exception.
\<close>

theorem candidate_order:
  fixes self :: MazeManager and out :: "printed list"
  defines "pos \<equiv> position (player self)" and "d \<equiv> orientation (player self)"
  defines "probe \<equiv> \<lambda>c. player_can_go self (add pos (orientation_value c))"
  defines "taken \<equiv> \<lambda>c. \<lparr>maze = maze self,
                          player = \<lparr>position = add pos (orientation_value c), orientation = c\<rparr>\<rparr>"
  defines "line \<equiv> \<lambda>c. out @ [AtFacing pos c]"
  assumes "\<not> is_player_located_at_goal self" and "to_Pose (player self) \<notin> history"
  shows "(probe (turn_to_the_right d) = Inr True
            \<longrightarrow> loop_body self out = Inr (taken (turn_to_the_right d), line (turn_to_the_right d))
              \<and> trial_loop self history out
                  = trial_loop (taken (turn_to_the_right d)) (insert (to_Pose (player self)) history)
                      (line (turn_to_the_right d)))
       \<and> (probe (turn_to_the_right d) = Inr False \<and> probe d = Inr True
            \<longrightarrow> loop_body self out = Inr (taken d, line d)
              \<and> trial_loop self history out
                  = trial_loop (taken d) (insert (to_Pose (player self)) history) (line d))
       \<and> (probe (turn_to_the_right d) = Inr False \<and> probe d = Inr False
          \<and> probe (turn_to_the_left d) = Inr True
            \<longrightarrow> loop_body self out = Inr (taken (turn_to_the_left d), line (turn_to_the_left d))
              \<and> trial_loop self history out
                  = trial_loop (taken (turn_to_the_left d)) (insert (to_Pose (player self)) history)
                      (line (turn_to_the_left d)))
       \<and> (probe (turn_to_the_right d) = Inr False \<and> probe d = Inr False
          \<and> probe (turn_to_the_left d) = Inr False
            \<longrightarrow> loop_body self out = Inr (taken (turn_around d), line (turn_around d))
              \<and> trial_loop self history out
                  = trial_loop (taken (turn_around d)) (insert (to_Pose (player self)) history)
                      (line (turn_around d)))
       \<and> (probe (turn_to_the_right d) = Inl e
          \<or> probe (turn_to_the_right d) = Inr False \<and> probe d = Inl e
          \<or> probe (turn_to_the_right d) = Inr False \<and> probe d = Inr False
             \<and> probe (turn_to_the_left d) = Inl e
            \<longrightarrow> loop_body self out = Inl e \<and> trial_loop self history out = (out, Inl e))"
  using assms(6,7) unfolding pos_def d_def probe_def taken_def line_def
  by (auto simp: trial_loop.simps[of self history out] loop_body_cases applied_explicit
      prospective_def)

theorem candidate_order_witness:
  "loop_body (on_maze1 (Point2D 1 1) East) []
     = Inr (on_maze1 (Point2D 2 1) South, [AtFacing (Point2D 1 1) South])
   \<and> trial_loop (on_maze1 (Point2D 1 1) East) {} []
     = trial_loop (on_maze1 (Point2D 2 1) South) {Pose (Point2D 1 1) East} [AtFacing (Point2D 1 1) South]
   \<and> loop_body (on_maze1 (Point2D 3 2) East) []
     = Inr (on_maze1 (Point2D 3 3) East, [AtFacing (Point2D 3 2) East])
   \<and> trial_loop (on_maze1 (Point2D 3 2) East) {} []
     = trial_loop (on_maze1 (Point2D 3 3) East) {Pose (Point2D 3 2) East} [AtFacing (Point2D 3 2) East]
   \<and> loop_body (on_maze1 (Point2D 3 1) South) []
     = Inr (on_maze1 (Point2D 3 2) East, [AtFacing (Point2D 3 1) East])
   \<and> trial_loop (on_maze1 (Point2D 3 1) South) {} []
     = trial_loop (on_maze1 (Point2D 3 2) East) {Pose (Point2D 3 1) South} [AtFacing (Point2D 3 1) East]
   \<and> player_can_go_backward (on_walled_in (Point2D 1 1) North) = Inr False
   \<and> loop_body (on_walled_in (Point2D 1 1) North) []
     = Inr (on_walled_in (Point2D 2 1) South, [AtFacing (Point2D 1 1) South])
   \<and> trial_loop (on_walled_in (Point2D 1 1) North) {} []
     = trial_loop (on_walled_in (Point2D 2 1) South) {Pose (Point2D 1 1) North} [AtFacing (Point2D 1 1) South]
   \<and> loop_body (on_ragged (Point2D 1 0) East) [] = Inl IndexError
   \<and> trial_loop (on_ragged (Point2D 1 0) East) {} [] = ([], Inl IndexError)"
  using candidate_order[where self = "on_maze1 (Point2D 1 1) East" and history = "{}" and out = "[]"]
    candidate_order[where self = "on_maze1 (Point2D 3 2) East" and history = "{}" and out = "[]"]
    candidate_order[where self = "on_maze1 (Point2D 3 1) South" and history = "{}" and out = "[]"]
    candidate_order[where self = "on_walled_in (Point2D 1 1) North" and history = "{}" and out = "[]"]
    candidate_order[where self = "on_ragged (Point2D 1 0) East" and history = "{}" and out = "[]"
      and e = IndexError]
  by (simp add: maze1_def on_maze1_def walled_in_maze_def on_walled_in_def ragged_maze_def
      on_ragged_def is_player_located_at_goal_def is_located_at_def to_Pose_def
      player_can_go_def player_can_go_backward_def getitem_def add_def)

section \<open>Wall safety\<close>













section \<open>Lookups outside the grid\<close>

lemma getitem_minus_one: "xs \<noteq> [] \<Longrightarrow> getitem xs (- 1) = Inr (last xs)"
proof -
  assume ne: "xs \<noteq> []"
  then have "nat (- 1 + int (length xs)) = length xs - 1"
    by (cases xs) simp_all
  moreover from ne have "Suc 0 \<le> length xs"
    by (cases xs) simp_all
  ultimately show ?thesis using ne
    by (simp add: getitem_def last_conv_nth)
qed

lemma getitem_beyond: "int (length xs) \<le> i \<Longrightarrow> getitem xs i = Inl IndexError"
  by (simp add: getitem_def)

text \<open>
  C10: the lookup of \<open>_player_can_go\<close> at row \<open>-1\<close> is the lookup in the last row, and at
  column \<open>-1\<close> it is the last cell of the row; at a row index that is at least the number
  of rows, or a column index that is at least the length of the row, it raises
  \<open>IndexError\<close>; and when it answers that the agent cannot go, the position indexes, directly
  or from the end, a cell of the grid that is a wall.
\<close>

theorem player_can_go_out_of_grid:
  "(floor (maze self) \<noteq> [] \<longrightarrow>
      player_can_go self (Point2D (- 1) y)
        = (case getitem (last (floor (maze self))) y of Inl e \<Rightarrow> Inl e | Inr f \<Rightarrow> Inr (f \<noteq> Wall)))
   \<and> (getitem (floor (maze self)) x = Inr row \<and> row \<noteq> [] \<longrightarrow>
        player_can_go self (Point2D x (- 1)) = Inr (last row \<noteq> Wall))
   \<and> (int (length (floor (maze self))) \<le> x \<longrightarrow> player_can_go self (Point2D x y) = Inl IndexError)
   \<and> (getitem (floor (maze self)) x = Inr row \<and> int (length row) \<le> y \<longrightarrow>
        player_can_go self (Point2D x y) = Inl IndexError)
   \<and> (player_can_go self pos = Inr False \<longrightarrow>
        (\<exists>i j. i < length (floor (maze self)) \<and> j < length (floor (maze self) ! i)
           \<and> floor (maze self) ! i ! j = Wall
           \<and> (px pos = int i \<or> px pos = int i - int (length (floor (maze self))))
           \<and> (py pos = int j \<or> py pos = int j - int (length (floor (maze self) ! i)))))"
proof (intro conjI impI)
  assume "floor (maze self) \<noteq> []"
  then show "player_can_go self (Point2D (- 1) y)
        = (case getitem (last (floor (maze self))) y of Inl e \<Rightarrow> Inl e | Inr f \<Rightarrow> Inr (f \<noteq> Wall))"
    by (simp add: player_can_go_def getitem_minus_one)
next
  assume "getitem (floor (maze self)) x = Inr row \<and> row \<noteq> []"
  then show "player_can_go self (Point2D x (- 1)) = Inr (last row \<noteq> Wall)"
    by (simp add: player_can_go_def getitem_minus_one)
next
  assume "int (length (floor (maze self))) \<le> x"
  then show "player_can_go self (Point2D x y) = Inl IndexError"
    by (simp add: player_can_go_def getitem_beyond)
next
  assume "getitem (floor (maze self)) x = Inr row \<and> int (length row) \<le> y"
  then show "player_can_go self (Point2D x y) = Inl IndexError"
    by (simp add: player_can_go_def getitem_beyond)
next
  let ?fm = "floor (maze self)"
  assume "player_can_go self pos = Inr False"
  then obtain row where row: "getitem ?fm (px pos) = Inr row" and w: "getitem row (py pos) = Inr Wall"
    by (auto simp: player_can_go_def split: sum.splits)
  from row obtain i where i: "i < length ?fm" "row = ?fm ! i"
    "px pos = int i \<or> px pos = int i - int (length ?fm)"
    by (auto simp: getitem_def split: if_splits
        intro: that[of "nat (px pos)"] that[of "nat (px pos + int (length ?fm))"])
  from w obtain j where j: "j < length row" "row ! j = Wall"
    "py pos = int j \<or> py pos = int j - int (length row)"
    by (auto simp: getitem_def split: if_splits
        intro: that[of "nat (py pos)"] that[of "nat (py pos + int (length row))"])
  from i j show "\<exists>i j. i < length ?fm \<and> j < length (?fm ! i) \<and> ?fm ! i ! j = Wall
           \<and> (px pos = int i \<or> px pos = int i - int (length ?fm))
           \<and> (py pos = int j \<or> py pos = int j - int (length (?fm ! i)))"
    by blast
qed

theorem player_can_go_out_of_grid_witness:
  "player_can_go (on_small_maze (Point2D 0 0) North) (Point2D (- 1) 0) = Inr True
   \<and> player_can_go (on_small_maze (Point2D 0 0) North) (Point2D 0 (- 1)) = Inr True
   \<and> player_can_go (on_small_maze (Point2D 0 0) North) (Point2D 2 0) = Inl IndexError
   \<and> player_can_go (on_small_maze (Point2D 0 0) North) (Point2D 0 2) = Inl IndexError
   \<and> player_can_go (on_small_maze (Point2D 0 0) North) (Point2D (- 1) (- 1)) = Inr False
   \<and> (\<exists>i j. i < length (floor small_maze) \<and> j < length (floor small_maze ! i)
         \<and> floor small_maze ! i ! j = Wall
         \<and> (- 1 = int i \<or> - 1 = int i - int (length (floor small_maze)))
         \<and> (- 1 = int j \<or> - 1 = int j - int (length (floor small_maze ! i))))"
proof -
  have b: "player_can_go (on_small_maze (Point2D 0 0) North) (Point2D (- 1) (- 1)) = Inr False"
    by (simp add: small_maze_def on_small_maze_def player_can_go_def getitem_def)
  show ?thesis
    using b
      player_can_go_out_of_grid[where self = "on_small_maze (Point2D 0 0) North" and x = 0
        and y = 0 and row = "[Start, Goal]" and pos = "Point2D (- 1) (- 1)"]
      player_can_go_out_of_grid[where self = "on_small_maze (Point2D 0 0) North" and x = 2
        and y = 0 and row = "[Start, Goal]" and pos = "Point2D (- 1) (- 1)"]
      player_can_go_out_of_grid[where self = "on_small_maze (Point2D 0 0) North" and x = 0
        and y = 2 and row = "[Start, Goal]" and pos = "Point2D (- 1) (- 1)"]
    by (simp add: small_maze_def on_small_maze_def getitem_def)
qed

section \<open>Parse errors\<close>

text \<open>
  C7: a text with no \<open>o\<close> makes \<open>parse\<close> end in \<open>_validate\<close>, before any maze is built,
  with the line about the beginning position, whether or not it has an \<open>x\<close> (the start is
  tested first); a text with an \<open>o\<close> and no \<open>x\<close> ends there with the line about the exit
  position. The printed line is the sentence of the marker between \<open>Error: \<close> and
  \<open> Abort program.\<close>, and the two sentences differ.
\<close>

theorem missing_marker:
  "(of_char CHR ''o'' \<notin> set s \<longrightarrow>
      parse s = Inl (SystemExit (str_of ''Error: '' @ str_of ''Cannot find the beginning position.''
                                  @ str_of '' Abort program.'') 1))
   \<and> (of_char CHR ''o'' \<in> set s \<and> of_char CHR ''x'' \<notin> set s \<longrightarrow>
      parse s = Inl (SystemExit (str_of ''Error: '' @ str_of ''Cannot find the exit position.''
                                  @ str_of '' Abort program.'') 1))
   \<and> str_of ''Cannot find the beginning position.'' \<noteq> str_of ''Cannot find the exit position.''"
  by (simp add: parse_def validate_def str_of_def)

theorem missing_marker_witness:
  "parse (str_of ''* x'')
     = Inl (SystemExit (str_of ''Error: Cannot find the beginning position. Abort program.'') 1)
   \<and> parse (str_of ''* *'')
     = Inl (SystemExit (str_of ''Error: Cannot find the beginning position. Abort program.'') 1)
   \<and> parse (str_of ''*o*'')
     = Inl (SystemExit (str_of ''Error: Cannot find the exit position. Abort program.'') 1)"
  using missing_marker[of "str_of ''* x''"] missing_marker[of "str_of ''* *''"]
    missing_marker[of "str_of ''*o*''"]
  by (simp add: str_of_def)


section \<open>Invalid characters\<close>

lemma EFloor_of_glyph: "glyph c \<Longrightarrow> \<exists>f. EFloor_of c = Inr f"
  by (auto simp: glyph_def EFloor_of_def)

lemma EFloor_of_not_glyph: "\<not> glyph c \<Longrightarrow> EFloor_of c = Inl (invalid_character c)"
  by (simp add: glyph_def EFloor_of_def invalid_character_def str_of_def)

lemma EFloor_of_to_char: "EFloor_of (to_char f) = Inr f"
  by (cases f) (simp_all add: EFloor_of_def)

lemma to_char_not_linebreak: "\<not> is_linebreak (to_char f)"
  by (cases f) (simp_all add: is_linebreak_def)

lemma concat_splitlines_from:
  "concat (splitlines_from line s) = line @ filter (\<lambda>c. \<not> is_linebreak c) s"
  by (induction line s rule: splitlines_from.induct) (auto simp: is_linebreak_def)

lemma find_filter: "find P (filter Q xs) = find (\<lambda>c. Q c \<and> P c) xs"
  by (induction xs) auto

lemma floors_of_line_bad:
  "find (\<lambda>c. \<not> glyph c) t = Some c \<Longrightarrow> floors_of_line t = Inl (invalid_character c)"
proof (induction t)
  case Nil
  then show ?case by simp
next
  case (Cons a t)
  show ?case
  proof (cases "glyph a")
    case True
    with Cons.prems have "find (\<lambda>c. \<not> glyph c) t = Some c" by simp
    then have "floors_of_line t = Inl (invalid_character c)" by (rule Cons.IH)
    moreover from True obtain f where "EFloor_of a = Inr f" using EFloor_of_glyph by blast
    ultimately show ?thesis by simp
  next
    case False
    with Cons.prems have "a = c" by simp
    with False show ?thesis by (simp add: EFloor_of_not_glyph)
  qed
qed

lemma floors_of_line_ok:
  "find (\<lambda>c. \<not> glyph c) t = None \<Longrightarrow> \<exists>fs. floors_of_line t = Inr fs"
proof (induction t)
  case Nil
  then show ?case by simp
next
  case (Cons a t)
  then have g: "glyph a" and "find (\<lambda>c. \<not> glyph c) t = None"
    by (auto split: if_splits)
  then obtain fs where "floors_of_line t = Inr fs" using Cons.IH by blast
  moreover from g obtain f where "EFloor_of a = Inr f" using EFloor_of_glyph by blast
  ultimately show ?case by simp
qed

lemma find_append:
  "find P (xs @ ys) = (case find P xs of Some c \<Rightarrow> Some c | None \<Rightarrow> find P ys)"
  by (induction xs) auto

lemma floors_of_lines_bad:
  "find (\<lambda>c. \<not> glyph c) (concat ls) = Some c \<Longrightarrow> floors_of_lines ls = Inl (invalid_character c)"
proof (induction ls)
  case Nil
  then show ?case by simp
next
  case (Cons l ls)
  show ?case
  proof (cases "find (\<lambda>c. \<not> glyph c) l")
    case None
    with Cons.prems have "find (\<lambda>c. \<not> glyph c) (concat ls) = Some c"
      by (simp add: find_append)
    then have "floors_of_lines ls = Inl (invalid_character c)" by (rule Cons.IH)
    moreover from None obtain fs where "floors_of_line l = Inr fs"
      using floors_of_line_ok by blast
    ultimately show ?thesis by simp
  next
    case (Some a)
    with Cons.prems have "a = c" by (simp add: find_append)
    with Some show ?thesis by (simp add: floors_of_line_bad)
  qed
qed

text \<open>
  C6, as the claim states it, fails twice. The text \<open>#\<close> has a character outside the
  glyph table, but \<open>_validate\<close> runs first and ends the process for the missing start:
  no \<open>ValueError\<close> is raised. And a line boundary is a character outside the glyph
  table that \<open>splitlines\<close> removes before the conversion: the text \<open>o\<close>, newline, \<open>x\<close>
  parses.
\<close>

theorem invalid_glyph_counterexample:
  "of_char CHR ''#'' \<in> set (str_of ''#'')
   \<and> \<not> glyph (of_char CHR ''#'')
   \<and> parse (str_of ''#'')
       = Inl (SystemExit (str_of ''Error: Cannot find the beginning position. Abort program.'') 1)
   \<and> 10 \<in> set (str_of ''o'' @ [10] @ str_of ''x'')
   \<and> \<not> glyph 10
   \<and> parse (str_of ''o'' @ [10] @ str_of ''x'')
       = Inr \<lparr>floor = [[Start], [Goal]], start = Point2D 0 0, goal = Point2D 1 0\<rparr>"
  by (simp add: parse_def validate_def str_of_def glyph_def splitlines_def is_linebreak_def
      EFloor_of_def find_xy_def)

text \<open>
  C6, amended: when the text has an \<open>o\<close> and an \<open>x\<close>, and \<open>c\<close> is its first character
  that is neither a line boundary nor in the glyph table, \<open>parse\<close> raises the
  \<open>ValueError\<close> whose message is \<open>Invalid character: 'c'\<close>, and builds no maze.
\<close>

theorem invalid_glyph:
  assumes "of_char CHR ''o'' \<in> set s" and "of_char CHR ''x'' \<in> set s"
    and "find (\<lambda>c. \<not> is_linebreak c \<and> \<not> glyph c) s = Some c"
  shows "parse s = Inl (ValueError (str_of ''Invalid character: '' @ str_of [CHR 0x27] @ [c] @ str_of [CHR 0x27]))"
proof -
  have "find (\<lambda>c. \<not> glyph c) (concat (splitlines s)) = Some c"
    using assms(3) by (simp add: splitlines_def concat_splitlines_from find_filter)
  then have "floors_of_lines (splitlines s) = Inl (invalid_character c)"
    by (rule floors_of_lines_bad)
  with assms(1,2) show ?thesis
    by (simp add: parse_def validate_def invalid_character_def)
qed

theorem invalid_glyph_witness:
  "parse (str_of ''*o#'' @ [10] @ str_of ''x?*'')
     = Inl (ValueError (str_of ''Invalid character: '' @ str_of [CHR 0x27] @ str_of ''#'' @ str_of [CHR 0x27]))"
proof -
  have h1: "of_char CHR ''o'' \<in> set (str_of ''*o#'' @ [10] @ str_of ''x?*'')"
    by (simp add: str_of_def)
  have h2: "of_char CHR ''x'' \<in> set (str_of ''*o#'' @ [10] @ str_of ''x?*'')"
    by (simp add: str_of_def)
  have h3: "find (\<lambda>c. \<not> is_linebreak c \<and> \<not> glyph c) (str_of ''*o#'' @ [10] @ str_of ''x?*'')
            = Some (of_char CHR ''#'')"
    by (simp add: str_of_def is_linebreak_def glyph_def)
  show ?thesis
    using invalid_glyph[OF h1 h2 h3] by (simp add: str_of_def)
qed

section \<open>Round trip\<close>

lemma splitlines_from_plain:
  "\<not> is_linebreak c \<Longrightarrow> splitlines_from acc (c # t) = splitlines_from (acc @ [c]) t"
  by (cases t) (auto simp: is_linebreak_def)

lemma splitlines_from_plain_line:
  "(\<And>c. c \<in> set l \<Longrightarrow> \<not> is_linebreak c) \<Longrightarrow>
     splitlines_from acc (l @ t) = splitlines_from (acc @ l) t"
proof (induction l arbitrary: acc)
  case Nil
  then show ?case by simp
next
  case (Cons a l)
  have "splitlines_from acc ((a # l) @ t) = splitlines_from (acc @ [a]) (l @ t)"
    using Cons.prems by (simp add: splitlines_from_plain)
  also have "\<dots> = splitlines_from ((acc @ [a]) @ l) t"
    using Cons.prems by (intro Cons.IH) simp
  finally show ?case by simp
qed

lemma splitlines_from_linesep:
  "linesep = [10] \<or> linesep = [13, 10] \<Longrightarrow>
     splitlines_from acc (linesep @ t) = acc # splitlines_from [] t"
  by (cases t) (auto simp: is_linebreak_def)

lemma splitlines_join:
  assumes sep: "linesep = [10] \<or> linesep = [13, 10]"
  shows "(\<And>l c. l \<in> set (l0 # ls) \<Longrightarrow> c \<in> set l \<Longrightarrow> \<not> is_linebreak c) \<Longrightarrow>
         last (l0 # ls) \<noteq> [] \<Longrightarrow> splitlines_from [] (join linesep (l0 # ls)) = l0 # ls"
proof (induction ls arbitrary: l0)
  case Nil
  have "splitlines_from [] (l0 @ []) = splitlines_from ([] @ l0) []"
    using Nil.prems(1) by (intro splitlines_from_plain_line) simp
  with Nil.prems(2) show ?case by simp
next
  case (Cons l1 ls)
  have "splitlines_from [] (l0 @ (linesep @ join linesep (l1 # ls)))
        = splitlines_from ([] @ l0) (linesep @ join linesep (l1 # ls))"
    using Cons.prems(1)[of l0] by (intro splitlines_from_plain_line) simp
  also have "\<dots> = l0 # splitlines_from [] (join linesep (l1 # ls))"
    using sep by (simp add: splitlines_from_linesep)
  also have "splitlines_from [] (join linesep (l1 # ls)) = l1 # ls"
    using Cons.prems by (intro Cons.IH) auto
  finally show ?case by simp
qed

lemma floors_of_line_to_char: "floors_of_line (map to_char row) = Inr row"
  by (induction row) (simp_all add: EFloor_of_to_char)

lemma floors_of_lines_to_char: "floors_of_lines (map (map to_char) fm) = Inr fm"
  by (induction fm) (simp_all add: floors_of_line_to_char)

lemma set_join: "l \<in> set ls \<Longrightarrow> set l \<subseteq> set (join sep ls)"
  by (induction sep ls rule: join.induct) auto

lemma find_xy_kind_in_row:
  assumes "find_xy kind fm = Inr p"
  shows "\<exists>row \<in> set fm. kind \<in> set row"
proof -
  from assms obtain x xs where "filter (\<lambda>i. kind \<in> set (fm ! i)) [0..<length fm] = x # xs"
    by (auto simp: find_xy_def split: list.splits)
  then have "x \<in> set (filter (\<lambda>i. kind \<in> set (fm ! i)) [0..<length fm])" by simp
  then have "x < length fm" "kind \<in> set (fm ! x)" by auto
  then show ?thesis by (metis nth_mem)
qed

lemma to_char_in_text:
  assumes "find_xy kind fm = Inr p"
  shows "to_char kind \<in> set (join sep (map (map to_char) fm))"
proof -
  from find_xy_kind_in_row[OF assms] obtain row where "row \<in> set fm" "kind \<in> set row"
    by blast
  then have "map to_char row \<in> set (map (map to_char) fm)" "to_char kind \<in> set (map to_char row)"
    by auto
  then show ?thesis using set_join by blast
qed

text \<open>
  C8, as the claim states it, fails: a text that ends with an empty line after a line
  boundary parses into a grid whose last row is empty; \<open>to_string\<close> writes no boundary
  after the last row, and \<open>splitlines\<close> gives no empty last line, so the grid parsed from
  the rendered text has one row less.
\<close>

theorem round_trip_counterexample:
  "parse (str_of ''ox'' @ [10, 10])
     = Inr \<lparr>floor = [[Start, Goal], []], start = Point2D 0 0, goal = Point2D 0 1\<rparr>
   \<and> parse (to_string [10] \<lparr>floor = [[Start, Goal], []], start = Point2D 0 0, goal = Point2D 0 1\<rparr>)
     = Inr \<lparr>floor = [[Start, Goal]], start = Point2D 0 0, goal = Point2D 0 1\<rparr>"
  by (simp add: parse_def validate_def str_of_def splitlines_def is_linebreak_def
      EFloor_of_def find_xy_def to_string_def)

text \<open>
  C8, amended: when a text parses into a maze whose last row is not empty, and the line
  separator of the platform is \<open>\n\<close> or \<open>\r\n\<close>, parsing the rendered maze gives the
  same maze: the same grid, start and goal.
\<close>

theorem round_trip:
  assumes "parse s = Inr m" and "linesep = [10] \<or> linesep = [13, 10]"
    and "last (floor m) \<noteq> []"
  shows "parse (to_string linesep m) = Inr m"
proof -
  from assms(1) have st: "find_xy Start (floor m) = Inr (start m)"
    and go: "find_xy Goal (floor m) = Inr (goal m)"
    by (auto simp: parse_def split: sum.splits)
  from find_xy_kind_in_row[OF st] obtain l0 ls where fm: "floor m = l0 # ls"
    by (cases "floor m") auto
  have v: "validate (to_string linesep m) = Inr ()"
    using to_char_in_text[OF st, of linesep] to_char_in_text[OF go, of linesep]
    by (simp add: validate_def to_string_def)
  have "splitlines_from [] (join linesep (map to_char l0 # map (map to_char) ls))
        = map to_char l0 # map (map to_char) ls"
  proof (rule splitlines_join[OF assms(2)])
    fix l c assume "l \<in> set (map to_char l0 # map (map to_char) ls)" "c \<in> set l"
    then obtain f where "c = to_char f" by auto
    then show "\<not> is_linebreak c" by (simp add: to_char_not_linebreak)
  next
    show "last (map to_char l0 # map (map to_char) ls) \<noteq> []"
      using assms(3) fm by (cases ls rule: rev_cases) auto
  qed
  then have sp: "splitlines (to_string linesep m) = map (map to_char) (floor m)"
    by (simp add: splitlines_def to_string_def fm)
  show ?thesis
    by (simp add: parse_def v sp floors_of_lines_to_char st go)
qed

theorem round_trip_witness:
  "parse maze1_text = Inr maze1 \<and> last (floor maze1) \<noteq> []
   \<and> parse (to_string [13, 10] maze1) = Inr maze1"
proof -
  have h1: "parse maze1_text = Inr maze1"
    by (simp add: maze1_text_def maze1_def parse_def validate_def str_of_def splitlines_def
        is_linebreak_def EFloor_of_def find_xy_def)
  have h2: "[13, 10] = [10] \<or> [13, 10] = [13, 10::nat]" by simp
  have h3: "last (floor maze1) \<noteq> []" by (simp add: maze1_def)
  show ?thesis using h1 h3 round_trip[OF h1 h2 h3] by simp
qed


section \<open>Cycle detection\<close>

lemma loop_body_any_out:
  "loop_body self out = Inr (self', out') \<Longrightarrow> \<exists>out''. loop_body self [] = Inr (self', out'')"
  "loop_body self out = Inl e \<Longrightarrow> loop_body self [] = Inl e"
  by (auto simp: loop_body_cases split: sum.splits bool.splits)

lemma after_transitions_Suc:
  "loop_body self out = Inr (self', out') \<Longrightarrow> after_transitions (Suc n) self = after_transitions n self'"
  by (auto dest: loop_body_any_out(1))

lemma after_transitions_Suc_Inl:
  "loop_body self out = Inl e \<Longrightarrow> after_transitions (Suc n) self = Inl e"
  by (auto dest: loop_body_any_out(2))

lemma after_transitions_maze:
  "after_transitions n self = Inr s \<Longrightarrow> maze s = maze self"
proof (induction n arbitrary: self)
  case 0
  then show ?case by simp
next
  case (Suc n)
  then show ?case
    by (auto split: sum.splits dest: loop_body_maze)
qed

lemma stays_off_goal_step:
  assumes "loop_body self out = Inr (self', out')" and "\<not> is_player_located_at_goal self"
  shows "stays_off_goal self (Suc j) \<longleftrightarrow> stays_off_goal self' j"
proof
  assume a: "stays_off_goal self (Suc j)"
  show "stays_off_goal self' j"
    unfolding stays_off_goal_def
  proof (intro allI impI)
    fix k assume "k \<le> j"
    then have "Suc k \<le> Suc j" by simp
    with a obtain s where "after_transitions (Suc k) self = Inr s \<and> \<not> is_player_located_at_goal s"
      unfolding stays_off_goal_def by blast
    then show "\<exists>s. after_transitions k self' = Inr s \<and> \<not> is_player_located_at_goal s"
      using after_transitions_Suc[OF assms(1)] by auto
  qed
next
  assume a: "stays_off_goal self' j"
  show "stays_off_goal self (Suc j)"
    unfolding stays_off_goal_def
  proof (intro allI impI)
    fix k assume k: "k \<le> Suc j"
    show "\<exists>s. after_transitions k self = Inr s \<and> \<not> is_player_located_at_goal s"
    proof (cases k)
      case 0
      then show ?thesis using assms(2) by simp
    next
      case (Suc k')
      with k have "k' \<le> j" by simp
      with a obtain s where "after_transitions k' self' = Inr s \<and> \<not> is_player_located_at_goal s"
        unfolding stays_off_goal_def by blast
      then show ?thesis using Suc after_transitions_Suc[OF assms(1)] by auto
    qed
  qed
qed

lemma recurs_at_step:
  assumes "loop_body self out = Inr (self', out')"
  shows "recurs_at self h (Suc j) \<longleftrightarrow> recurs_at self' (insert (to_Pose (player self)) h) j"
proof
  assume "recurs_at self h (Suc j)"
  then obtain s where s: "after_transitions (Suc j) self = Inr s"
    and c: "to_Pose (player s) \<in> h
            \<or> (\<exists>i<Suc j. \<exists>s'. after_transitions i self = Inr s' \<and> to_Pose (player s') = to_Pose (player s))"
    unfolding recurs_at_def by blast
  from s have s': "after_transitions j self' = Inr s"
    using after_transitions_Suc[OF assms] by simp
  from c show "recurs_at self' (insert (to_Pose (player self)) h) j"
  proof
    assume "to_Pose (player s) \<in> h"
    with s' show ?thesis unfolding recurs_at_def by blast
  next
    assume "\<exists>i<Suc j. \<exists>s'. after_transitions i self = Inr s' \<and> to_Pose (player s') = to_Pose (player s)"
    then obtain i t where i: "i < Suc j" "after_transitions i self = Inr t"
      "to_Pose (player t) = to_Pose (player s)" by blast
    show ?thesis
    proof (cases i)
      case 0
      with i have "to_Pose (player self) = to_Pose (player s)" by simp
      with s' show ?thesis unfolding recurs_at_def by auto
    next
      case (Suc i')
      with i have "i' < j" "after_transitions i' self' = Inr t"
        using after_transitions_Suc[OF assms] by auto
      with i(3) s' show ?thesis unfolding recurs_at_def by blast
    qed
  qed
next
  assume "recurs_at self' (insert (to_Pose (player self)) h) j"
  then obtain s where s': "after_transitions j self' = Inr s"
    and c: "to_Pose (player s) \<in> insert (to_Pose (player self)) h
            \<or> (\<exists>i<j. \<exists>t. after_transitions i self' = Inr t \<and> to_Pose (player t) = to_Pose (player s))"
    unfolding recurs_at_def by blast
  from s' have s: "after_transitions (Suc j) self = Inr s"
    using after_transitions_Suc[OF assms] by simp
  from c consider "to_Pose (player s) = to_Pose (player self)" | "to_Pose (player s) \<in> h"
    | "\<exists>i<j. \<exists>t. after_transitions i self' = Inr t \<and> to_Pose (player t) = to_Pose (player s)"
    by blast
  then show "recurs_at self h (Suc j)"
  proof cases
    case 1
    have "0 < Suc j" "after_transitions 0 self = Inr self" by simp_all
    with 1 s show ?thesis unfolding recurs_at_def by metis
  next
    case 2
    with s show ?thesis unfolding recurs_at_def by blast
  next
    case 3
    then obtain i t where "i < j" "after_transitions i self' = Inr t"
      "to_Pose (player t) = to_Pose (player s)" by blast
    then have "Suc i < Suc j" "after_transitions (Suc i) self = Inr t"
      using after_transitions_Suc[OF assms] by auto
    with \<open>to_Pose (player t) = to_Pose (player s)\<close> s show ?thesis
      unfolding recurs_at_def by blast
  qed
qed

lemma trial_loop_unsolved:
  "ends_unsolved (trial_loop self h out) \<longleftrightarrow> (\<exists>j. stays_off_goal self j \<and> recurs_at self h j)"
proof (induction self h out rule: trial_loop.induct)
  case (1 self history out)
  show ?case
  proof (cases "is_player_located_at_goal self")
    case True
    then have "\<not> stays_off_goal self j" for j
      unfolding stays_off_goal_def by (auto intro: exI[of _ 0])
    with True show ?thesis
      by (simp add: trial_loop.simps[of self history out] ends_unsolved_def)
  next
    case off: False
    show ?thesis
    proof (cases "to_Pose (player self) \<in> history")
      case True
      have "stays_off_goal self 0" using off by (simp add: stays_off_goal_def)
      moreover have "recurs_at self history 0" using True by (simp add: recurs_at_def)
      ultimately have "\<exists>j. stays_off_goal self j \<and> recurs_at self history j" by blast
      with True off show ?thesis
        by (simp add: trial_loop.simps[of self history out] ends_unsolved_def)
    next
      case new: False
      have zero: "\<not> recurs_at self history 0"
        using new by (simp add: recurs_at_def)
      show ?thesis
      proof (cases "loop_body self out")
        case (Inl e)
        have "\<not> stays_off_goal self j" if "j \<noteq> 0" for j
        proof -
          from that obtain j' where "j = Suc j'" by (cases j) auto
          then have "Suc 0 \<le> j" by simp
          moreover have "after_transitions (Suc 0) self = Inl e"
            using Inl by (rule after_transitions_Suc_Inl)
          ultimately show ?thesis unfolding stays_off_goal_def by force
        qed
        with zero have "\<not> (\<exists>j. stays_off_goal self j \<and> recurs_at self history j)"
          by metis
        with Inl off new show ?thesis
          by (simp add: trial_loop.simps[of self history out] ends_unsolved_def)
      next
        case (Inr r)
        obtain self' out' where r: "r = (self', out')" by (cases r)
        with Inr have body: "loop_body self out = Inr (self', out')" by simp
        have IH: "ends_unsolved (trial_loop self' (insert (to_Pose (player self)) history) out')
                  \<longleftrightarrow> (\<exists>j. stays_off_goal self' j \<and> recurs_at self' (insert (to_Pose (player self)) history) j)"
          using "1.IH"[OF _ Inr r[symmetric]] off new by simp
        have "(\<exists>j. stays_off_goal self j \<and> recurs_at self history j)
              \<longleftrightarrow> (\<exists>j. stays_off_goal self (Suc j) \<and> recurs_at self history (Suc j))"
          using zero by (metis not0_implies_Suc)
        also have "\<dots> \<longleftrightarrow> (\<exists>j. stays_off_goal self' j \<and> recurs_at self' (insert (to_Pose (player self)) history) j)"
          using stays_off_goal_step[OF body off] recurs_at_step[OF body] by simp
        finally show ?thesis
          using IH body off new by (simp add: trial_loop.simps[of self history out])
      qed
    qed
  qed
qed

lemma process_unsolved:
  "(\<exists>out self'. process_players_trial self = (out @ [NoSolution], Inr self'))
   \<longleftrightarrow> ends_unsolved (trial_loop self {} [CurrentPosition (position (player self))])"
proof (cases "trial_loop self {} [CurrentPosition (position (player self))]")
  case (Pair out r)
  show ?thesis
  proof (cases r)
    case (Inl e)
    with Pair show ?thesis
      by (simp add: process_players_trial_def ends_unsolved_def)
  next
    case (Inr s)
    with Pair show ?thesis
      by (simp add: process_players_trial_def ends_unsolved_def)
  qed
qed

text \<open>
  C2: the run ends with the line that there is no solution if and only if, in the
  trajectory of the agent, the pose after some number \<open>j\<close> of transitions is the pose
  after fewer transitions (the same position and the same orientation), none of the
  first \<open>j\<close> transitions raises, and the agent is at the goal neither before nor after any
  of them. A position that comes back with another orientation is not such a pose.
\<close>

theorem unsolvable_iff_pose_recurs:
  "(\<exists>out self'. process_players_trial self = (out @ [NoSolution], Inr self'))
   \<longleftrightarrow> (\<exists>i j. i < j
         \<and> (\<exists>a b. after_transitions i self = Inr a \<and> after_transitions j self = Inr b
                \<and> position (player a) = position (player b)
                \<and> orientation (player a) = orientation (player b))
         \<and> (\<forall>k\<le>j. \<exists>c. after_transitions k self = Inr c
                \<and> position (player c) \<noteq> goal (maze self)))"
proof -
  have off: "stays_off_goal self j
             \<longleftrightarrow> (\<forall>k\<le>j. \<exists>c. after_transitions k self = Inr c \<and> position (player c) \<noteq> goal (maze self))"
    for j
    unfolding stays_off_goal_def is_player_located_at_goal_def is_located_at_def
    by (metis after_transitions_maze)
  have rec: "recurs_at self {} j
             \<longleftrightarrow> (\<exists>i<j. \<exists>a b. after_transitions i self = Inr a \<and> after_transitions j self = Inr b
                    \<and> position (player a) = position (player b)
                    \<and> orientation (player a) = orientation (player b))"
    for j
    unfolding recurs_at_def to_Pose_def by auto
  have "(\<exists>out self'. process_players_trial self = (out @ [NoSolution], Inr self'))
        \<longleftrightarrow> (\<exists>j. stays_off_goal self j \<and> recurs_at self {} j)"
    by (simp only: process_unsolved trial_loop_unsolved)
  also have "\<dots> \<longleftrightarrow> (\<exists>i j. i < j
         \<and> (\<exists>a b. after_transitions i self = Inr a \<and> after_transitions j self = Inr b
                \<and> position (player a) = position (player b)
                \<and> orientation (player a) = orientation (player b))
         \<and> (\<forall>k\<le>j. \<exists>c. after_transitions k self = Inr c
                \<and> position (player c) \<noteq> goal (maze self)))"
    unfolding off rec by blast
  finally show ?thesis .
qed

theorem unsolvable_iff_pose_recurs_witness:
  "process_players_trial (on_walled_in (Point2D 1 1) North)
     = ([CurrentPosition (Point2D 1 1), AtFacing (Point2D 1 1) South, AtFacing (Point2D 2 1) North]
          @ [NoSolution],
        Inr (on_walled_in (Point2D 1 1) North))
   \<and> (\<exists>i j. i < j
         \<and> (\<exists>a b. after_transitions i (on_walled_in (Point2D 1 1) North) = Inr a
                \<and> after_transitions j (on_walled_in (Point2D 1 1) North) = Inr b
                \<and> position (player a) = position (player b)
                \<and> orientation (player a) = orientation (player b))
         \<and> (\<forall>k\<le>j. \<exists>c. after_transitions k (on_walled_in (Point2D 1 1) North) = Inr c
                \<and> position (player c) \<noteq> goal (maze (on_walled_in (Point2D 1 1) North))))
   \<and> process_players_trial (on_maze1 (Point2D 1 1) East)
     = ([CurrentPosition (Point2D 1 1), AtFacing (Point2D 1 1) South, AtFacing (Point2D 2 1) South,
         AtFacing (Point2D 3 1) East, AtFacing (Point2D 3 2) East, AtFacing (Point2D 3 3) East,
         AtFacing (Point2D 3 4) East, AtFacing (Point2D 3 5) West, AtFacing (Point2D 3 4) West,
         AtFacing (Point2D 3 3) West, AtFacing (Point2D 3 2) North, ExitAt (Point2D 2 2)],
        Inr (on_maze1 (Point2D 2 2) North))"
proof -
  have run: "process_players_trial (on_walled_in (Point2D 1 1) North)
     = ([CurrentPosition (Point2D 1 1), AtFacing (Point2D 1 1) South, AtFacing (Point2D 2 1) North]
          @ [NoSolution],
        Inr (on_walled_in (Point2D 1 1) North))"
    by (simp add: process_players_trial_def trial_loop.simps maze1_def on_maze1_def walled_in_maze_def on_walled_in_def run_defs)
  then have "\<exists>out self'. process_players_trial (on_walled_in (Point2D 1 1) North)
               = (out @ [NoSolution], Inr self')"
    by blast
  then have rec: "\<exists>i j. i < j
         \<and> (\<exists>a b. after_transitions i (on_walled_in (Point2D 1 1) North) = Inr a
                \<and> after_transitions j (on_walled_in (Point2D 1 1) North) = Inr b
                \<and> position (player a) = position (player b)
                \<and> orientation (player a) = orientation (player b))
         \<and> (\<forall>k\<le>j. \<exists>c. after_transitions k (on_walled_in (Point2D 1 1) North) = Inr c
                \<and> position (player c) \<noteq> goal (maze (on_walled_in (Point2D 1 1) North)))"
    by (simp only: unsolvable_iff_pose_recurs)
  have solved: "process_players_trial (on_maze1 (Point2D 1 1) East)
     = ([CurrentPosition (Point2D 1 1), AtFacing (Point2D 1 1) South, AtFacing (Point2D 2 1) South,
         AtFacing (Point2D 3 1) East, AtFacing (Point2D 3 2) East, AtFacing (Point2D 3 3) East,
         AtFacing (Point2D 3 4) East, AtFacing (Point2D 3 5) West, AtFacing (Point2D 3 4) West,
         AtFacing (Point2D 3 3) West, AtFacing (Point2D 3 2) North, ExitAt (Point2D 2 2)],
        Inr (on_maze1 (Point2D 2 2) North))"
    by (simp add: process_players_trial_def trial_loop.simps maze1_def on_maze1_def walled_in_maze_def on_walled_in_def run_defs)
  from run rec solved show ?thesis by blast
qed

section \<open>The length of a run\<close>

text \<open>
  Every transition prints one line, and is made from a pose that is not yet in the
  history and whose right-hand neighbour the lookup accepts. So the loop prints no more
  lines than there are such poses, and a grid of \<open>R\<close> rows of at most \<open>C\<close> cells has at
  most \<open>16 * R * C\<close> of them, the positions with negative coordinates included.
\<close>

lemma trial_loop_length:
  "length (fst (trial_loop self h out)) \<le> length out + card (probe_ok (maze self) - h)"
proof (induction self h out rule: trial_loop.induct)
  case (1 self history out)
  show ?case
  proof (cases "\<not> is_player_located_at_goal self \<and> to_Pose (player self) \<notin> history")
    case False
    then show ?thesis by (auto simp: trial_loop.simps[of self history out])
  next
    case guard: True
    show ?thesis
    proof (cases "loop_body self out")
      case (Inl e)
      with guard show ?thesis by (simp add: trial_loop.simps[of self history out])
    next
      case (Inr r)
      obtain self' out' where r: "r = (self', out')" by (cases r)
      with Inr have body: "loop_body self out = Inr (self', out')" by simp
      have m: "maze self' = maze self" using body by (rule loop_body_maze)
      have len: "length out' = Suc (length out)"
        using body by (auto simp: loop_body_cases split: sum.splits bool.splits)
      have "to_Pose (player self) \<in> probe_ok (maze self) - history"
        using loop_body_probe_ok[OF body] guard by simp
      then have less: "card (probe_ok (maze self) - insert (to_Pose (player self)) history)
                       < card (probe_ok (maze self) - history)"
        by (metis Diff_insert card_Diff1_less finite_Diff finite_probe_ok)
      have "length (fst (trial_loop self' (insert (to_Pose (player self)) history) out'))
            \<le> length out' + card (probe_ok (maze self') - insert (to_Pose (player self)) history)"
        using "1.IH"[OF guard Inr r[symmetric]] .
      with m len less have "length (fst (trial_loop self' (insert (to_Pose (player self)) history) out'))
            \<le> length out + card (probe_ok (maze self) - history)"
        by simp
      with guard body show ?thesis by (simp add: trial_loop.simps[of self history out])
    qed
  qed
qed

lemma process_players_trial_length:
  assumes "\<And>row. row \<in> set (floor (maze self)) \<Longrightarrow> length row \<le> C"
  shows "length (fst (process_players_trial self)) \<le> 2 + 16 * length (floor (maze self)) * C"
proof -
  let ?r = "trial_loop self {} [CurrentPosition (position (player self))]"
  have "length (fst ?r) \<le> 1 + card (probe_ok (maze self) - {})"
    using trial_loop_length[of self "{}" "[CurrentPosition (position (player self))]"] by simp
  also have "\<dots> \<le> 1 + 16 * length (floor (maze self)) * C"
    using card_probe_ok[of "maze self" C] assms by simp
  finally have "length (fst ?r) \<le> 1 + 16 * length (floor (maze self)) * C" .
  moreover have "length (fst (process_players_trial self)) \<le> Suc (length (fst ?r))"
    by (cases ?r) (auto simp: process_players_trial_def split: sum.splits)
  ultimately show ?thesis by simp
qed

end
